theory Spec2Isabelle
  imports Complex_Main "HOL-Library.Multiset" "HOL-Library.Sublist"
begin

section \<open>Data model of the building list page\<close>

text \<open>
  The page \<^verbatim>\<open>src/pages/BuildingList.jsx\<close> receives a JSON array of buildings. A building
  owns waypoints, a waypoint owns cracks. A field that the code guards against being
  absent (\<^verbatim>\<open>building.waypoints ? ... : []\<close>, \<^verbatim>\<open>wp.cracks?.map(...) || []\<close>,
  \<^verbatim>\<open>w != null\<close>, \<^verbatim>\<open>b.name?.toLowerCase()\<close>) is an \<open>option\<close>: \<open>None\<close> stands for
  \<^verbatim>\<open>null\<close> and for \<^verbatim>\<open>undefined\<close>, which the guards do not tell apart.

  Numbers are modelled by their exact values (\<open>rat\<close>): a width is the rational number
  that its JSON numeral denotes, and the literals \<^verbatim>\<open>0.3\<close> and \<^verbatim>\<open>0.2\<close> are \<open>3/10\<close> and
  \<open>2/10\<close>. The rounding of IEEE doubles is outside the model. A timestamp is the time
  value (milliseconds) that \<^verbatim>\<open>new Date(c.timestamp)\<close> yields for a valid date.
  A string is a list of code units below 256 (Latin-1).

  The field \<^verbatim>\<open>id\<close> of a building is \<open>id_b\<close>; the fields \<^verbatim>\<open>id\<close> and \<^verbatim>\<open>name\<close> of an
  entry of the statistics are \<open>id_s\<close> and \<open>name_s\<close>.
\<close>

record crack =
  widthMm :: "rat option"
  crackType :: string
  timestamp :: int

record waypoint =
  label :: string
  cracks :: "crack list option"

record building =
  id_b :: nat
  name :: "string option"
  address :: "string option"
  thumbnail :: "string option"
  waypoints :: "waypoint list option"

text \<open>
  The three severity labels of the page are Korean strings, written here as constructors:
  \<open>Severe\<close> for the label returned when the width is at least 0.3, \<open>Caution\<close> for the
  one returned from 0.2 on, \<open>Observe\<close> for the remaining one.
\<close>

datatype severity = Severe | Caution | Observe

section \<open>Severity classifier\<close>

text \<open>
  \<^verbatim>\<open>
  const getCrackSeverity = (maxWidthMm) => {
    if (maxWidthMm == null) return <observe>;
    if (maxWidthMm >= 0.3) return <severe>;
    if (maxWidthMm >= 0.2) return <caution>;
    return <observe>;
  };
  \<close>
\<close>

fun getCrackSeverity :: "rat option \<Rightarrow> severity" where
  "getCrackSeverity None = Observe"
| "getCrackSeverity (Some maxWidthMm) =
     (if maxWidthMm \<ge> 3 / 10 then Severe
      else if maxWidthMm \<ge> 2 / 10 then Caution
      else Observe)"

section \<open>Strings\<close>

text \<open>
  \<^verbatim>\<open>String.prototype.trim\<close> removes white space and line terminators from both ends;
  below 256 these are the code units 9 to 13, 32 and 160. \<^verbatim>\<open>toLowerCase\<close> maps the
  upper-case letters to lower case; below 256 these are \<open>A\<close> to \<open>Z\<close> and the code
  units 192 to 222 without 215 (the multiplication sign), each 32 below its lower-case
  letter. \<^verbatim>\<open>s.includes(t)\<close> tells whether \<open>t\<close> occurs in \<open>s\<close> as a contiguous run.
\<close>

definition isWhiteSpace :: "char \<Rightarrow> bool" where
  "isWhiteSpace c = (of_char c \<in> {9, 10, 11, 12, 13, 32, 160 :: nat})"

definition trim :: "string \<Rightarrow> string" where
  "trim s = rev (dropWhile isWhiteSpace (rev (dropWhile isWhiteSpace s)))"

definition lowerChar :: "char \<Rightarrow> char" where
  "lowerChar c =
     (let n = of_char c :: nat
      in if (65 \<le> n \<and> n \<le> 90) \<or> (192 \<le> n \<and> n \<le> 222 \<and> n \<noteq> 215)
         then char_of (n + 32) else c)"

definition toLowerCase :: "string \<Rightarrow> string" where
  "toLowerCase s = map lowerChar s"

fun includes_str :: "string \<Rightarrow> string \<Rightarrow> bool" where
  "includes_str [] t = (t = [])"
| "includes_str (c # s) t = (prefix t (c # s) \<or> includes_str s t)"

section \<open>Crack metrics of the building card\<close>

text \<open>
  \<^verbatim>\<open>
  const cracks = building.waypoints
    ? building.waypoints.flatMap(
        (wp) => wp.cracks?.map((c) => ({ ...c, waypointLabel: wp.label })) || [])
    : [];
  \<close>
  The flattened crack of the card is the crack extended by the label of its waypoint.
\<close>

record card_crack = crack +
  waypointLabel :: string

definition cardCracks :: "building \<Rightarrow> card_crack list" where
  "cardCracks b =
     (case waypoints b of
        None \<Rightarrow> []
      | Some wps \<Rightarrow>
          concat (map (\<lambda>wp.
            case cracks wp of
              None \<Rightarrow> []
            | Some cs \<Rightarrow>
                map (\<lambda>c. \<lparr>widthMm = widthMm c, crackType = crackType c,
                            timestamp = timestamp c, waypointLabel = label wp\<rparr>) cs) wps))"

text \<open>
  \<^verbatim>\<open>
  const lastChecked = cracks.length
    ? cracks.reduce((a, b) =>
        new Date(a.timestamp) > new Date(b.timestamp) ? a : b).timestamp
    : null;
  \<close>
  \<^verbatim>\<open>reduce\<close> without an initial value starts from the first element.
\<close>

definition later :: "card_crack \<Rightarrow> card_crack \<Rightarrow> card_crack" where
  "later a b = (if timestamp a > timestamp b then a else b)"

definition lastChecked :: "building \<Rightarrow> int option" where
  "lastChecked b =
     (case cardCracks b of
        [] \<Rightarrow> None
      | c # cs \<Rightarrow> Some (timestamp (foldl later c cs)))"

text \<open>
  \<^verbatim>\<open>c.widthMm || 0\<close>: the width, or 0 when the width is falsy (missing, or the number 0).
\<close>

definition widthOr0 :: "card_crack \<Rightarrow> rat" where
  "widthOr0 c = (case widthMm c of None \<Rightarrow> 0 | Some w \<Rightarrow> if w = 0 then 0 else w)"

text \<open>
  \<^verbatim>\<open>Math.max(...ws)\<close> on a non-empty argument list, given as its first argument and
  the rest. (On no argument it is minus infinity; every call of the page is guarded by
  the length of the list.)
\<close>

definition Math_max :: "rat \<Rightarrow> rat list \<Rightarrow> rat" where
  "Math_max w ws = fold max ws w"

text \<open>
  \<^verbatim>\<open>x.toFixed(2)\<close> is the decimal string of the integer \<open>n\<close> of hundredths nearest to
  \<open>x\<close> (the larger one on a tie), with the sign of a negative \<open>x\<close> put in front.
  The string is modelled by the number it denotes.
\<close>

definition toFixed2 :: "rat \<Rightarrow> rat" where
  "toFixed2 x =
     (if x < 0 then - (of_int \<lfloor>- x * 100 + 1 / 2\<rfloor> / 100)
      else of_int \<lfloor>x * 100 + 1 / 2\<rfloor> / 100)"

text \<open>
  \<^verbatim>\<open>
  const crackCount = cracks.length;
  const maxWidth = cracks.length
    ? Math.max(...cracks.map((c) => c.widthMm || 0)) : 0;
  const avgWidth = cracks.length
    ? (cracks.reduce((s, c) => s + (c.widthMm || 0), 0) / crackCount).toFixed(2) : 0;
  \<close>
\<close>

definition card_crackCount :: "building \<Rightarrow> nat" where
  "card_crackCount b = length (cardCracks b)"

definition card_maxWidth :: "building \<Rightarrow> rat" where
  "card_maxWidth b =
     (case map widthOr0 (cardCracks b) of
        [] \<Rightarrow> 0
      | w # ws \<Rightarrow> Math_max w ws)"

definition card_avgWidth :: "building \<Rightarrow> rat" where
  "card_avgWidth b =
     (if length (cardCracks b) \<noteq> 0
      then toFixed2 (foldl (\<lambda>s c. s + widthOr0 c) 0 (cardCracks b)
                       / of_nat (card_crackCount b))
      else 0)"

section \<open>Widths used by the severity filter and by the statistics\<close>

text \<open>
  Both the severity filter (lines 156 to 161) and the statistics (lines 177 to 182)
  compute
  \<^verbatim>\<open>
  const widths = b.waypoints
    ? b.waypoints.flatMap(
        (wp) => wp.cracks?.map((c) => c.widthMm).filter((w) => w != null) || [])
    : [];
  \<close>
\<close>

fun nonNull :: "'a option list \<Rightarrow> 'a list" where
  "nonNull [] = []"
| "nonNull (None # ws) = nonNull ws"
| "nonNull (Some w # ws) = w # nonNull ws"

definition widths :: "building \<Rightarrow> rat list" where
  "widths b =
     (case waypoints b of
        None \<Rightarrow> []
      | Some wps \<Rightarrow>
          concat (map (\<lambda>wp.
            case cracks wp of
              None \<Rightarrow> []
            | Some cs \<Rightarrow> nonNull (map widthMm cs)) wps))"

text \<open>
  \<^verbatim>\<open>
  const maxWidth = widths.length ? Math.max(...widths) : null;
  const severity = getCrackSeverity(maxWidth);
  \<close>
\<close>

definition buildingSeverity :: "building \<Rightarrow> severity" where
  "buildingSeverity b =
     (let maxWidth = (case widths b of [] \<Rightarrow> None | w # ws \<Rightarrow> Some (Math_max w ws))
      in getCrackSeverity maxWidth)"

section \<open>Method calls on absent values\<close>







section \<open>Arrays\<close>

text \<open>
  A JavaScript array is an object with an identity: \<^verbatim>\<open>sort\<close> and \<^verbatim>\<open>push\<close> change
  the array they are called on, while \<^verbatim>\<open>filter\<close>, \<^verbatim>\<open>slice\<close> and the spread
  \<^verbatim>\<open>[...xs]\<close> create a new array. A heap is the list of the arrays created so far, a
  reference is a position in it. A reference that was never created reads as the empty
  array; the page never holds one.
\<close>

type_synonym ref = nat

type_synonym 'a heap = "'a list list"

definition deref :: "'a heap \<Rightarrow> ref \<Rightarrow> 'a list" where
  "deref h r = (if r < length h then h ! r else [])"

definition alloc :: "'a list \<Rightarrow> 'a heap \<Rightarrow> ref \<times> 'a heap" where
  "alloc xs h = (length h, h @ [xs])"

definition array_filter :: "('a \<Rightarrow> bool) \<Rightarrow> ref \<Rightarrow> 'a heap \<Rightarrow> ref \<times> 'a heap" where
  "array_filter p r h = alloc (filter p (deref h r)) h"

definition array_spread :: "ref \<Rightarrow> 'a heap \<Rightarrow> ref \<times> 'a heap" where
  "array_spread r h = alloc (deref h r) h"

definition array_slice :: "nat \<Rightarrow> nat \<Rightarrow> ref \<Rightarrow> 'a heap \<Rightarrow> ref \<times> 'a heap" where
  "array_slice lo hi r h = alloc (take (hi - lo) (drop lo (deref h r))) h"

definition array_push :: "'a \<Rightarrow> ref \<Rightarrow> 'a heap \<Rightarrow> 'a heap" where
  "array_push x r h = h[r := deref h r @ [x]]"

text \<open>
  \<^verbatim>\<open>xs.sort(cmp)\<close> sorts in place and is stable: \<open>a\<close> comes before \<open>b\<close> when
  \<open>cmp a b < 0\<close>, after it when \<open>cmp a b > 0\<close>, and elements that compare as 0 keep
  their order. It is modelled by insertion from the right, which puts an element in
  front of the first later element that it does not have to follow.
\<close>

fun insert_cmp :: "('a \<Rightarrow> 'a \<Rightarrow> rat) \<Rightarrow> 'a \<Rightarrow> 'a list \<Rightarrow> 'a list" where
  "insert_cmp cmp x [] = [x]"
| "insert_cmp cmp x (y # ys) =
     (if cmp x y \<le> 0 then x # y # ys else y # insert_cmp cmp x ys)"

definition sort_cmp :: "('a \<Rightarrow> 'a \<Rightarrow> rat) \<Rightarrow> 'a list \<Rightarrow> 'a list" where
  "sort_cmp cmp xs = foldr (insert_cmp cmp) xs []"

definition array_sort :: "('a \<Rightarrow> 'a \<Rightarrow> rat) \<Rightarrow> ref \<Rightarrow> 'a heap \<Rightarrow> ref \<times> 'a heap" where
  "array_sort cmp r h = (r, h[r := sort_cmp cmp (deref h r)])"

section \<open>Statistics and rankings\<close>

text \<open>
  An entry of the statistics, and the property \<^verbatim>\<open>b[key]\<close> that a ranking sorts by.
\<close>

record stat =
  id_s :: nat
  name_s :: "string option"
  crackCount :: nat
  maxWidth :: rat
  avgWidth :: rat

datatype key = CrackCountKey | MaxWidthKey | AvgWidthKey

fun property :: "stat \<Rightarrow> key \<Rightarrow> rat" where
  "property e CrackCountKey = of_nat (crackCount e)"
| "property e MaxWidthKey = maxWidth e"
| "property e AvgWidthKey = avgWidth e"

record store =
  buildingArrays :: "building heap"
  statArrays :: "stat heap"

text \<open>
  The body of \<^verbatim>\<open>buildings.forEach((b) => { ... })\<close>, on the running total and the
  heap that holds the array \<^verbatim>\<open>stats\<close>:
  \<^verbatim>\<open>
  const count = widths.length;
  totalCracks += count;
  if (count > 0) {
    stats.push({ id: b.id, name: b.name, crackCount: count,
      maxWidth: Math.max(...widths),
      avgWidth: widths.reduce((s, w) => s + w, 0) / count });
  }
  \<close>
  The list of widths is non-empty exactly when \<open>count > 0\<close>.
\<close>

definition visit :: "ref \<Rightarrow> building \<Rightarrow> nat \<times> stat heap \<Rightarrow> nat \<times> stat heap" where
  "visit stats b = (\<lambda>(totalCracks, h).
     let count = length (widths b);
         totalCracks = totalCracks + count
     in case widths b of
          [] \<Rightarrow> (totalCracks, h)
        | w # ws \<Rightarrow>
            (totalCracks,
             array_push \<lparr>id_s = id_b b, name_s = name b, crackCount = count,
                         maxWidth = Math_max w ws,
                         avgWidth = foldl (\<lambda>s w. s + w) 0 (widths b) / of_nat count\<rparr>
               stats h))"

text \<open>
  \<^verbatim>\<open>
  const sortBy = (key) =>
    [...stats].sort((a, b) => b[key] - a[key]).slice(0, 3);
  \<close>
\<close>

definition compareDesc :: "key \<Rightarrow> stat \<Rightarrow> stat \<Rightarrow> rat" where
  "compareDesc k a b = property b k - property a k"

definition sortBy :: "ref \<Rightarrow> key \<Rightarrow> stat heap \<Rightarrow> ref \<times> stat heap" where
  "sortBy stats k h =
     (let (copy, h) = array_spread stats h;
          (sorted, h) = array_sort (compareDesc k) copy h
      in array_slice 0 3 sorted h)"

record crack_stats =
  totalCracks :: nat
  sortedByCount :: ref
  sortedByWidth :: ref
  sortedByAvgWidth :: ref

definition crackStats :: "ref \<Rightarrow> store \<Rightarrow> crack_stats \<times> store" where
  "crackStats bref s =
     (let (stats, h) = alloc [] (statArrays s);
          (total, h) = fold (visit stats) (deref (buildingArrays s) bref) (0, h);
          (byCount, h) = sortBy stats CrackCountKey h;
          (byWidth, h) = sortBy stats MaxWidthKey h;
          (byAvg, h) = sortBy stats AvgWidthKey h
      in (\<lparr>totalCracks = total, sortedByCount = byCount, sortedByWidth = byWidth,
           sortedByAvgWidth = byAvg\<rparr>,
          s\<lparr>statArrays := h\<rparr>))"

section \<open>Search and filter effect\<close>

text \<open>
  The state of the component: \<^verbatim>\<open>buildings\<close> and \<^verbatim>\<open>filteredBuildings\<close> refer to
  arrays, \<^verbatim>\<open>error\<close> is absent or a message, \<^verbatim>\<open>activeFilters\<close> holds severity labels.
\<close>

record component =
  buildings :: ref
  filteredBuildings :: ref
  loading :: bool
  error :: "string option"
  searchTerm :: string
  activeFilters :: "severity list"

text \<open>
  The callback of the text filter, for the trimmed and lowered term:
  \<^verbatim>\<open>
  !term || b.name?.toLowerCase().includes(term)
        || b.address?.toLowerCase().includes(term)
  \<close>
\<close>

definition matchesTerm :: "string \<Rightarrow> building \<Rightarrow> bool" where
  "matchesTerm term b =
     (term = [] \<or>
      (case name b of None \<Rightarrow> False | Some n \<Rightarrow> includes_str (toLowerCase n) term) \<or>
      (case address b of None \<Rightarrow> False | Some a \<Rightarrow> includes_str (toLowerCase a) term))"

text \<open>
  The callback of the severity filter: \<^verbatim>\<open>activeFilters.includes(severity)\<close>.
\<close>

definition matchesSeverity :: "severity list \<Rightarrow> building \<Rightarrow> bool" where
  "matchesSeverity filters b = (buildingSeverity b \<in> set filters)"

text \<open>
  Step 1 of the effect, the text filter:
  \<^verbatim>\<open>
  const term = searchTerm.trim().toLowerCase();
  let result = buildings.filter((b) => { return (...); });
  \<close>
\<close>

definition textFilter :: "string \<Rightarrow> ref \<Rightarrow> building heap \<Rightarrow> ref \<times> building heap" where
  "textFilter search bref h =
     (let term = toLowerCase (trim search)
      in array_filter (matchesTerm term) bref h)"

text \<open>
  Step 2 of the effect, the severity filter:
  \<^verbatim>\<open>
  if (activeFilters.length > 0) { result = result.filter((b) => { ... }); }
  \<close>
\<close>

definition severityFilter :: "severity list \<Rightarrow> ref \<Rightarrow> building heap \<Rightarrow> ref \<times> building heap" where
  "severityFilter filters result h =
     (if length filters > 0 then array_filter (matchesSeverity filters) result h
      else (result, h))"

text \<open>
  The effect:
  \<^verbatim>\<open>
  if (loading || error) return;
  ... step 1 ... step 2 ...
  setFilteredBuildings(result);
  \<close>
  An error message is truthy when it is not the empty string.
\<close>

definition truthy :: "string option \<Rightarrow> bool" where
  "truthy x = (case x of None \<Rightarrow> False | Some m \<Rightarrow> m \<noteq> [])"

definition filterEffect :: "component \<Rightarrow> store \<Rightarrow> component \<times> store" where
  "filterEffect c s =
     (if loading c \<or> truthy (error c) then (c, s)
      else
        let (result, h) = textFilter (searchTerm c) (buildings c) (buildingArrays s);
            (result, h) = severityFilter (activeFilters c) result h
        in (c\<lparr>filteredBuildings := result\<rparr>, s\<lparr>buildingArrays := h\<rparr>))"

section \<open>Notions of the specification\<close>

text \<open>
  The crack records of a building: the cracks of all its waypoints, in order. The
  numeric widths are the widths of the records that have one.
\<close>

definition crackRecords :: "building \<Rightarrow> crack list" where
  "crackRecords b =
     (case waypoints b of
        None \<Rightarrow> []
      | Some wps \<Rightarrow> concat (map (\<lambda>wp. case cracks wp of None \<Rightarrow> [] | Some cs \<Rightarrow> cs) wps))"

definition numericWidths :: "building \<Rightarrow> rat list" where
  "numericWidths b = List.map_filter widthMm (crackRecords b)"

text \<open>The maximum crack width of a building, absent when it has no numeric width.\<close>

definition maxNumericWidth :: "building \<Rightarrow> rat option" where
  "maxNumericWidth b =
     (if numericWidths b = [] then None else Some (Max (set (numericWidths b))))"

text \<open>
  The entry that the statistics hold for a building with at least one numeric width:
  count, maximum and average of the numeric widths. The entries of a building list
  are those of its buildings with a numeric width, in the order of the list.
\<close>

definition entry :: "building \<Rightarrow> stat" where
  "entry b = \<lparr>id_s = id_b b, name_s = name b, crackCount = length (widths b),
              maxWidth = Max (set (widths b)),
              avgWidth = sum_list (widths b) / of_nat (length (widths b))\<rparr>"

definition entries :: "building list \<Rightarrow> stat list" where
  "entries bs = map entry (filter (\<lambda>b. widths b \<noteq> []) bs)"

definition ranked :: "key \<Rightarrow> building list \<Rightarrow> stat list" where
  "ranked k bs = sort_key (\<lambda>e. - property e k) (entries bs)"

text \<open>
  A ranking \<open>rk\<close> is the top 3 of the entries \<open>es\<close> by a metric when it has at most
  3 elements in descending order of the metric and is the first 3 elements of a list
  that holds exactly the entries, in descending order of the metric, with the entries
  of equal metric in the order they have in \<open>es\<close>.
\<close>

definition top3_by :: "(stat \<Rightarrow> 'a::linorder) \<Rightarrow> stat list \<Rightarrow> stat list \<Rightarrow> bool" where
  "top3_by metric es rk \<longleftrightarrow>
     length rk \<le> 3 \<and>
     sorted_wrt (\<lambda>a b. metric a \<ge> metric b) rk \<and>
     (\<exists>ys. rk = take 3 ys \<and> mset ys = mset es \<and>
        sorted_wrt (\<lambda>a b. metric a \<ge> metric b) ys \<and>
        (\<forall>v. filter (\<lambda>e. metric e = v) ys = filter (\<lambda>e. metric e = v) es))"

text \<open>The ranking of the result that belongs to a key.\<close>

fun ranking :: "key \<Rightarrow> crack_stats \<Rightarrow> ref" where
  "ranking CrackCountKey res = sortedByCount res"
| "ranking MaxWidthKey res = sortedByWidth res"
| "ranking AvgWidthKey res = sortedByAvgWidth res"

text \<open>
  A string contains a term without regard to case when the lowered term occurs in
  the lowered string; an absent string contains nothing.
\<close>

definition containsIgnoreCase :: "string option \<Rightarrow> string \<Rightarrow> bool" where
  "containsIgnoreCase field t =
     (case field of None \<Rightarrow> False | Some s \<Rightarrow> sublist (toLowerCase t) (toLowerCase s))"



section \<open>Example data\<close>

text \<open>
  Six buildings: \<open>ex_A\<close> has the widths 0.1 and 0.35, \<open>ex_B\<close> has no waypoints
  field, \<open>ex_C\<close> has a waypoint without a cracks field and a waypoint with a crack
  without a width and a crack of width 0.4, \<open>ex_D\<close> has the width 0.35, \<open>ex_E\<close> has
  twice the width 0.25, and \<open>ex_F\<close> has a single crack without a width.
\<close>

definition ex_A :: building where
  "ex_A = \<lparr>id_b = 1, name = Some ''Alpha Tower'', address = Some ''1 Main St'',
            thumbnail = None,
            waypoints = Some [\<lparr>label = ''roof'', cracks = Some
              [\<lparr>widthMm = Some (1 / 10), crackType = ''hairline'', timestamp = 1000\<rparr>,
               \<lparr>widthMm = Some (35 / 100), crackType = ''shear'', timestamp = 3000\<rparr>]\<rparr>]\<rparr>"

definition ex_B :: building where
  "ex_B = \<lparr>id_b = 2, name = Some ''Beta Hall'', address = None, thumbnail = None,
            waypoints = None\<rparr>"

definition ex_C :: building where
  "ex_C = \<lparr>id_b = 3, name = Some ''Gamma'', address = Some ''2 Alpha Road'',
            thumbnail = None,
            waypoints = Some
              [\<lparr>label = ''north'', cracks = None\<rparr>,
               \<lparr>label = ''south'', cracks = Some
                 [\<lparr>widthMm = None, crackType = ''shear'', timestamp = 5000\<rparr>,
                  \<lparr>widthMm = Some (4 / 10), crackType = ''shear'', timestamp = 2000\<rparr>]\<rparr>]\<rparr>"

definition ex_D :: building where
  "ex_D = \<lparr>id_b = 4, name = Some ''Delta'', address = None, thumbnail = None,
            waypoints = Some [\<lparr>label = ''east'', cracks = Some
              [\<lparr>widthMm = Some (35 / 100), crackType = ''hairline'', timestamp = 4000\<rparr>]\<rparr>]\<rparr>"

definition ex_E :: building where
  "ex_E = \<lparr>id_b = 5, name = None, address = Some ''5 Side St'', thumbnail = None,
            waypoints = Some
              [\<lparr>label = ''a'', cracks = Some
                 [\<lparr>widthMm = Some (25 / 100), crackType = ''hairline'', timestamp = 100\<rparr>]\<rparr>,
               \<lparr>label = ''b'', cracks = Some
                 [\<lparr>widthMm = Some (25 / 100), crackType = ''hairline'', timestamp = 200\<rparr>]\<rparr>]\<rparr>"

definition ex_F :: building where
  "ex_F = \<lparr>id_b = 6, name = Some ''Zeta'', address = None, thumbnail = None,
            waypoints = Some [\<lparr>label = ''west'', cracks = Some
              [\<lparr>widthMm = None, crackType = ''shear'', timestamp = 6000\<rparr>]\<rparr>]\<rparr>"

text \<open>
  A seventh building, outside the store: \<open>ex_G\<close> has a crack without a width and a
  crack whose width was reported below zero.
\<close>

definition ex_G :: building where
  "ex_G = \<lparr>id_b = 7, name = Some ''Eta'', address = None, thumbnail = None,
            waypoints = Some [\<lparr>label = ''pier'', cracks = Some
              [\<lparr>widthMm = None, crackType = ''shear'', timestamp = 7000\<rparr>,
               \<lparr>widthMm = Some (- 1 / 10), crackType = ''shear'', timestamp = 8000\<rparr>]\<rparr>]\<rparr>"

text \<open>
  A store after the fetch: array 0 is the fetched list, array 1 the initial empty
  list of filtered buildings. The component searches for \<open>sT\<close>, typed with
  blanks around it, and has the filter \<open>Severe\<close> switched on.
\<close>

definition ex_store :: store where
  "ex_store = \<lparr>buildingArrays = [[ex_A, ex_B, ex_C, ex_D, ex_E, ex_F], []], statArrays = []\<rparr>"

definition ex_component :: component where
  "ex_component = \<lparr>buildings = 0, filteredBuildings = 1, loading = False, error = None,
                    searchTerm = ''  sT '', activeFilters = [Severe]\<rparr>"

section \<open>Properties\<close>

subsection \<open>Auxiliary facts\<close>

lemma includes_str_iff: "includes_str s t \<longleftrightarrow> (\<exists>ps ss. s = ps @ t @ ss)"
proof (induction s)
  case Nil
  show ?case by auto
next
  case (Cons c s)
  have "includes_str (c # s) t \<longleftrightarrow> prefix t (c # s) \<or> sublist t s"
    using Cons.IH by (simp add: sublist_def)
  also have "\<dots> \<longleftrightarrow> sublist t (c # s)"
    by (simp add: sublist_Cons_right)
  finally show ?case by (simp add: sublist_def)
qed

lemma insert_cmp_insort:
  "insert_cmp (compareDesc k) x ys = insort_key (\<lambda>e. - property e k) x ys"
  by (induction ys) (simp_all add: compareDesc_def)

lemma sort_cmp_sort_key:
  "sort_cmp (compareDesc k) xs = sort_key (\<lambda>e. - property e k) xs"
  unfolding sort_cmp_def sort_key_def
  by (induction xs) (simp_all add: insert_cmp_insort)

lemma deref_append_old: "r < length h \<Longrightarrow> deref (h @ g) r = deref h r"
  by (simp add: deref_def nth_append)

lemma deref_append_new: "deref (h @ xs # g) (length h) = xs"
  by (simp add: deref_def nth_append)

lemma sortBy_closed:
  "sortBy r k h =
     (Suc (length h),
      h @ [sort_cmp (compareDesc k) (deref h r), take 3 (sort_cmp (compareDesc k) (deref h r))])"
  by (simp add: sortBy_def array_spread_def array_sort_def array_slice_def alloc_def
      deref_def nth_append list_update_append)

lemma Math_max_Max: "Math_max w ws = Max (set (w # ws))"
  unfolding Math_max_def by (rule Max.set_eq_fold [symmetric])

lemma foldl_plus_sum_list: "foldl (\<lambda>s w. s + w) (a::rat) ws = a + sum_list ws"
  by (induction ws arbitrary: a) (simp_all add: add.assoc)

lemma visit_closed:
  "visit r b (t, h) =
     (t + length (widths b),
      if widths b = [] then h else array_push (entry b) r h)"
  by (cases "widths b")
     (simp_all add: visit_def entry_def Math_max_Max foldl_plus_sum_list Let_def)

lemma forEach_closed:
  "r < length h \<Longrightarrow>
   fold (visit r) bs (t, h) =
     (t + sum_list (map (\<lambda>b. length (widths b)) bs), h[r := deref h r @ entries bs])"
proof (induction bs arbitrary: t h)
  case Nil
  then show ?case by (simp add: entries_def deref_def)
next
  case (Cons b bs)
  show ?case
  proof (cases "widths b = []")
    case True
    then show ?thesis using Cons by (simp add: visit_closed entries_def)
  next
    case False
    let ?h = "array_push (entry b) r h"
    have len: "r < length ?h"
      using Cons.prems by (simp add: array_push_def)
    have cell: "deref ?h r = deref h r @ [entry b]"
      using Cons.prems by (simp add: array_push_def deref_def)
    have upd: "?h[r := xs] = h[r := xs]" for xs
      by (simp add: array_push_def)
    have "fold (visit r) (b # bs) (t, h) = fold (visit r) bs (t + length (widths b), ?h)"
      using False by (simp add: visit_closed)
    also have "\<dots> = (t + length (widths b) + sum_list (map (\<lambda>b. length (widths b)) bs),
        ?h[r := deref ?h r @ entries bs])"
      by (rule Cons.IH [OF len])
    also have "\<dots> = (t + sum_list (map (\<lambda>b. length (widths b)) (b # bs)),
        h[r := deref h r @ entries (b # bs)])"
      using False by (simp add: cell upd entries_def)
    finally show ?thesis .
  qed
qed

lemma crackStats_closed:
  "crackStats bref s =
     (\<lparr>totalCracks = sum_list (map (\<lambda>b. length (widths b)) (deref (buildingArrays s) bref)),
       sortedByCount = length (statArrays s) + 2,
       sortedByWidth = length (statArrays s) + 4,
       sortedByAvgWidth = length (statArrays s) + 6\<rparr>,
      s\<lparr>statArrays := statArrays s @
         [entries (deref (buildingArrays s) bref),
          ranked CrackCountKey (deref (buildingArrays s) bref),
          take 3 (ranked CrackCountKey (deref (buildingArrays s) bref)),
          ranked MaxWidthKey (deref (buildingArrays s) bref),
          take 3 (ranked MaxWidthKey (deref (buildingArrays s) bref)),
          ranked AvgWidthKey (deref (buildingArrays s) bref),
          take 3 (ranked AvgWidthKey (deref (buildingArrays s) bref))]\<rparr>)"
proof -
  let ?H = "statArrays s"
  let ?bs = "deref (buildingArrays s) bref"
  have each: "fold (visit (length ?H)) ?bs (0, ?H @ [[]]) =
      (sum_list (map (\<lambda>b. length (widths b)) ?bs), ?H @ [entries ?bs])"
    by (simp add: forEach_closed deref_append_new)
  have d: "deref (?H @ entries ?bs # g) (length ?H) = entries ?bs" for g
    by (rule deref_append_new)
  have s1: "sortBy (length ?H) k (?H @ entries ?bs # g) =
      (Suc (Suc (length ?H + length g)), ?H @ entries ?bs # g @ [ranked k ?bs, take 3 (ranked k ?bs)])" for k g
    by (simp add: sortBy_closed d sort_cmp_sort_key ranked_def)
  have a: "alloc [] ?H = (length ?H, ?H @ [[]])" by (simp add: alloc_def)
  show ?thesis
    unfolding crackStats_def a Let_def prod.case each
    apply (simp only: s1 [of _ "[]", simplified] prod.case)
    apply (simp only: s1 [of _ "[x, y]" for x y, simplified] prod.case)
    apply (simp only: s1 [of _ "[x, y, z, w]" for x y z w, simplified] prod.case)
    apply simp
    done
qed

lemma map_filter_append: "List.map_filter f (xs @ ys) = List.map_filter f xs @ List.map_filter f ys"
  by (simp add: List.map_filter_def)

lemma map_filter_concat: "List.map_filter f (concat xss) = concat (map (List.map_filter f) xss)"
  by (induction xss) (simp_all add: map_filter_append List.map_filter_simps)

lemma nonNull_map_filter: "nonNull (map f xs) = List.map_filter f xs"
proof (induction xs)
  case Nil
  show ?case by (simp add: List.map_filter_simps)
next
  case (Cons x xs)
  then show ?case by (cases "f x") (simp_all add: List.map_filter_simps)
qed

lemma widths_numericWidths: "widths b = numericWidths b"
proof (cases "waypoints b")
  case None
  then show ?thesis
    by (simp add: widths_def numericWidths_def crackRecords_def List.map_filter_simps)
next
  case (Some wps)
  have eq: "(\<lambda>wp. case cracks wp of None \<Rightarrow> [] | Some cs \<Rightarrow> nonNull (map widthMm cs)) =
      (\<lambda>wp. List.map_filter widthMm (case cracks wp of None \<Rightarrow> [] | Some cs \<Rightarrow> cs))"
  proof (rule ext)
    fix wp
    show "(case cracks wp of None \<Rightarrow> [] | Some cs \<Rightarrow> nonNull (map widthMm cs)) =
      List.map_filter widthMm (case cracks wp of None \<Rightarrow> [] | Some cs \<Rightarrow> cs)"
      by (cases "cracks wp") (simp_all add: nonNull_map_filter List.map_filter_simps)
  qed
  have "widths b = concat (map (\<lambda>wp. List.map_filter widthMm
      (case cracks wp of None \<Rightarrow> [] | Some cs \<Rightarrow> cs)) wps)"
    using Some by (simp add: widths_def eq)
  also have "\<dots> = numericWidths b"
    using Some by (simp add: numericWidths_def crackRecords_def map_filter_concat comp_def)
  finally show ?thesis .
qed

lemma numericWidths_records: "numericWidths b \<noteq> [] \<Longrightarrow> crackRecords b \<noteq> []"
  by (auto simp: numericWidths_def List.map_filter_simps)

lemma ranked_mset: "mset (ranked k bs) = mset (entries bs)"
  by (simp add: ranked_def)

lemma ranked_sorted: "sorted_wrt (\<lambda>a b. property a k \<ge> property b k) (ranked k bs)"
proof -
  have "sorted (map (\<lambda>e. - property e k) (ranked k bs))"
    unfolding ranked_def by (rule sorted_sort_key)
  then show ?thesis by (simp add: sorted_map)
qed

lemma ranked_stable:
  "filter (\<lambda>e. property e k = v) (ranked k bs) = filter (\<lambda>e. property e k = v) (entries bs)"
proof -
  have "filter (\<lambda>e. - property e k = - v) (sort_key (\<lambda>e. - property e k) (entries bs)) =
      filter (\<lambda>e. - property e k = - v) (entries bs)"
    by (rule sort_key_stable)
  then show ?thesis by (simp add: ranked_def)
qed

lemma entries_origin:
  assumes "e \<in> set (entries bs)"
  shows "0 < crackCount e \<and> (\<exists>b \<in> set bs. e = entry b \<and> crackRecords b \<noteq> [])"
proof -
  from assms obtain b where b: "b \<in> set bs" "widths b \<noteq> []" "e = entry b"
    by (auto simp: entries_def)
  have "crackRecords b \<noteq> []"
    using b(2) by (simp add: widths_numericWidths numericWidths_records)
  moreover have "0 < crackCount e"
    using b(2,3) by (simp add: entry_def)
  ultimately show ?thesis using b(1,3) by blast
qed

lemma ranking_deref:
  assumes "crackStats bref s = (res, s')"
  shows "deref (statArrays s') (ranking k res) = take 3 (ranked k (deref (buildingArrays s) bref))"
proof -
  have res: "res = fst (crackStats bref s)" and s': "s' = snd (crackStats bref s)"
    using assms by simp_all
  show ?thesis
    by (cases k) (simp_all add: res s' crackStats_closed deref_def nth_append)
qed

subsection \<open>The severity classifier\<close>

text \<open>
  C1. The classifier depends on nothing but the maximum width. It returns \<open>Severe\<close>
  exactly for a width of at least 0.3, \<open>Caution\<close> exactly for a width from 0.2 up to
  but excluding 0.3, and \<open>Observe\<close> exactly for a width below 0.2 or for a missing
  width. The comparisons are on the width itself: nothing is rounded.
\<close>

theorem getCrackSeverity_thresholds:
  "(getCrackSeverity w = Severe \<longleftrightarrow> (\<exists>x. w = Some x \<and> x \<ge> 3 / 10)) \<and>
   (getCrackSeverity w = Caution \<longleftrightarrow> (\<exists>x. w = Some x \<and> 2 / 10 \<le> x \<and> x < 3 / 10)) \<and>
   (getCrackSeverity w = Observe \<longleftrightarrow> (w = None \<or> (\<exists>x. w = Some x \<and> x < 2 / 10)))"
  by (cases w) auto

subsection \<open>Rankings\<close>

lemma top3_by_ranked:
  assumes le: "\<And>a b. property a k \<ge> property b k \<longleftrightarrow> metric a \<ge> metric b"
    and eq: "\<And>a v. metric a = v \<longleftrightarrow> property a k = emb v"
  shows "top3_by metric (entries bs) (take 3 (ranked k bs))"
proof -
  have srt: "sorted_wrt (\<lambda>a b. metric a \<ge> metric b) (ranked k bs)"
    using ranked_sorted [of k bs] by (simp only: le)
  have stable: "filter (\<lambda>e. metric e = v) (ranked k bs) = filter (\<lambda>e. metric e = v) (entries bs)" for v
    using ranked_stable [of k "emb v" bs] by (simp only: eq)
  have "sorted_wrt (\<lambda>a b. metric a \<ge> metric b) (take 3 (ranked k bs))"
    using srt by (rule sorted_wrt_take)
  moreover have "length (take 3 (ranked k bs)) \<le> 3"
    by simp
  ultimately show ?thesis
    unfolding top3_by_def using srt stable ranked_mset [of k bs] by blast
qed

lemma top3_by_crackCount: "top3_by crackCount (entries bs) (take 3 (ranked CrackCountKey bs))"
  by (rule top3_by_ranked [where emb = of_nat]) simp_all

lemma top3_by_maxWidth: "top3_by maxWidth (entries bs) (take 3 (ranked MaxWidthKey bs))"
  by (rule top3_by_ranked [where emb = "\<lambda>v. v"]) auto

lemma top3_by_avgWidth: "top3_by avgWidth (entries bs) (take 3 (ranked AvgWidthKey bs))"
  by (rule top3_by_ranked [where emb = "\<lambda>v. v"]) auto

lemma ranked_origin:
  assumes "e \<in> set (take 3 (ranked k bs))"
  shows "0 < crackCount e \<and> (\<exists>b \<in> set bs. e = entry b \<and> crackRecords b \<noteq> [])"
proof -
  from assms have "e \<in> set (ranked k bs)"
    by (rule in_set_takeD)
  then have "e \<in> set (entries bs)"
    by (simp add: ranked_def)
  then show ?thesis by (rule entries_origin)
qed

text \<open>
  C2. The ranking by crack count is the top 3 of the entries of the building list by
  the field \<open>crackCount\<close>, the ranking by maximum width their top 3 by the field
  \<open>maxWidth\<close>, and the ranking by average width their top 3 by the field \<open>avgWidth\<close>:
  each has at most 3 entries, in descending order of its field, and is the first 3
  elements of a list that holds exactly the entries of the building list in descending
  order of the field, the entries of equal field in the order of the building list.
  Every entry of each ranking counts at least one crack and is the entry of a building
  of the list that has a crack record.
\<close>

theorem rankings_top3:
  assumes "crackStats bref s = (res, s')"
  shows "top3_by crackCount (entries (deref (buildingArrays s) bref))
           (deref (statArrays s') (sortedByCount res)) \<and>
         top3_by maxWidth (entries (deref (buildingArrays s) bref))
           (deref (statArrays s') (sortedByWidth res)) \<and>
         top3_by avgWidth (entries (deref (buildingArrays s) bref))
           (deref (statArrays s') (sortedByAvgWidth res)) \<and>
         (\<forall>e \<in> set (deref (statArrays s') (sortedByCount res)) \<union>
                  set (deref (statArrays s') (sortedByWidth res)) \<union>
                  set (deref (statArrays s') (sortedByAvgWidth res)).
            0 < crackCount e \<and>
            (\<exists>b \<in> set (deref (buildingArrays s) bref). e = entry b \<and> crackRecords b \<noteq> []))"
proof -
  let ?bs = "deref (buildingArrays s) bref"
  have c: "deref (statArrays s') (sortedByCount res) = take 3 (ranked CrackCountKey ?bs)"
    using ranking_deref [OF assms, of CrackCountKey] by simp
  have w: "deref (statArrays s') (sortedByWidth res) = take 3 (ranked MaxWidthKey ?bs)"
    using ranking_deref [OF assms, of MaxWidthKey] by simp
  have a: "deref (statArrays s') (sortedByAvgWidth res) = take 3 (ranked AvgWidthKey ?bs)"
    using ranking_deref [OF assms, of AvgWidthKey] by simp
  have mem: "0 < crackCount e \<and> (\<exists>b \<in> set ?bs. e = entry b \<and> crackRecords b \<noteq> [])"
    if "e \<in> set (take 3 (ranked CrackCountKey ?bs)) \<union> set (take 3 (ranked MaxWidthKey ?bs)) \<union>
        set (take 3 (ranked AvgWidthKey ?bs))" for e
    using that ranked_origin [of e _ ?bs] by blast
  show ?thesis
    unfolding c w a
    using top3_by_crackCount [of ?bs] top3_by_maxWidth [of ?bs] top3_by_avgWidth [of ?bs] mem
    by blast
qed

theorem rankings_top3_witness:
  "crackStats 0 ex_store = (fst (crackStats 0 ex_store), snd (crackStats 0 ex_store)) \<and>
   map id_s (deref (statArrays (snd (crackStats 0 ex_store)))
     (sortedByCount (fst (crackStats 0 ex_store)))) = [1, 5, 3] \<and>
   map id_s (deref (statArrays (snd (crackStats 0 ex_store)))
     (sortedByWidth (fst (crackStats 0 ex_store)))) = [3, 1, 4] \<and>
   map id_s (deref (statArrays (snd (crackStats 0 ex_store)))
     (sortedByAvgWidth (fst (crackStats 0 ex_store)))) = [3, 4, 5] \<and>
   top3_by crackCount (entries (deref (buildingArrays ex_store) 0))
     (deref (statArrays (snd (crackStats 0 ex_store)))
       (sortedByCount (fst (crackStats 0 ex_store)))) \<and>
   top3_by maxWidth (entries (deref (buildingArrays ex_store) 0))
     (deref (statArrays (snd (crackStats 0 ex_store)))
       (sortedByWidth (fst (crackStats 0 ex_store)))) \<and>
   top3_by avgWidth (entries (deref (buildingArrays ex_store) 0))
     (deref (statArrays (snd (crackStats 0 ex_store)))
       (sortedByAvgWidth (fst (crackStats 0 ex_store))))"
proof -
  let ?bs = "[ex_A, ex_B, ex_C, ex_D, ex_E, ex_F]"
  have h: "crackStats 0 ex_store = (fst (crackStats 0 ex_store), snd (crackStats 0 ex_store))"
    by simp
  have bs: "deref (buildingArrays ex_store) 0 = ?bs"
    by (simp add: ex_store_def deref_def)
  have c: "deref (statArrays (snd (crackStats 0 ex_store)))
       (sortedByCount (fst (crackStats 0 ex_store))) = take 3 (ranked CrackCountKey ?bs)"
    using ranking_deref [OF h, of CrackCountKey] by (simp add: bs)
  have w: "deref (statArrays (snd (crackStats 0 ex_store)))
       (sortedByWidth (fst (crackStats 0 ex_store))) = take 3 (ranked MaxWidthKey ?bs)"
    using ranking_deref [OF h, of MaxWidthKey] by (simp add: bs)
  have a: "deref (statArrays (snd (crackStats 0 ex_store)))
       (sortedByAvgWidth (fst (crackStats 0 ex_store))) = take 3 (ranked AvgWidthKey ?bs)"
    using ranking_deref [OF h, of AvgWidthKey] by (simp add: bs)
  have ic: "map id_s (take 3 (ranked CrackCountKey ?bs)) = [1, 5, 3]"
    by code_simp
  have iw: "map id_s (take 3 (ranked MaxWidthKey ?bs)) = [3, 1, 4]"
    by code_simp
  have ia: "map id_s (take 3 (ranked AvgWidthKey ?bs)) = [3, 4, 5]"
    by code_simp
  note tops = rankings_top3 [OF h]
  show ?thesis
  proof (intro conjI)
    show "crackStats 0 ex_store = (fst (crackStats 0 ex_store), snd (crackStats 0 ex_store))"
      by (rule h)
    show "map id_s (deref (statArrays (snd (crackStats 0 ex_store)))
        (sortedByCount (fst (crackStats 0 ex_store)))) = [1, 5, 3]"
      unfolding c by (rule ic)
    show "map id_s (deref (statArrays (snd (crackStats 0 ex_store)))
        (sortedByWidth (fst (crackStats 0 ex_store)))) = [3, 1, 4]"
      unfolding w by (rule iw)
    show "map id_s (deref (statArrays (snd (crackStats 0 ex_store)))
        (sortedByAvgWidth (fst (crackStats 0 ex_store)))) = [3, 4, 5]"
      unfolding a by (rule ia)
    show "top3_by crackCount (entries (deref (buildingArrays ex_store) 0))
        (deref (statArrays (snd (crackStats 0 ex_store)))
          (sortedByCount (fst (crackStats 0 ex_store))))"
      using tops by (rule conjunct1)
    show "top3_by maxWidth (entries (deref (buildingArrays ex_store) 0))
        (deref (statArrays (snd (crackStats 0 ex_store)))
          (sortedByWidth (fst (crackStats 0 ex_store))))"
      using tops [THEN conjunct2] by (rule conjunct1)
    show "top3_by avgWidth (entries (deref (buildingArrays ex_store) 0))
        (deref (statArrays (snd (crackStats 0 ex_store)))
          (sortedByAvgWidth (fst (crackStats 0 ex_store))))"
      using tops [THEN conjunct2, THEN conjunct2] by (rule conjunct1)
  qed
qed

lemma length_numericWidths:
  "length (numericWidths b) = length (filter (\<lambda>c. widthMm c \<noteq> None) (crackRecords b))"
  by (simp add: numericWidths_def List.map_filter_def)

subsection \<open>Total crack count\<close>

text \<open>
  C3, for the crack records that have a width. The total crack count of the
  statistics is the number of crack records that have a width, over all buildings of
  the list and all their waypoints; a building without such a record adds 0. (A crack
  record without a width is not counted: the count is taken from the list of widths
  after the missing ones were filtered out.)
\<close>

theorem totalCracks_counts_numeric_widths:
  "totalCracks (fst (crackStats bref s)) =
     sum_list (map (\<lambda>b. length (filter (\<lambda>c. widthMm c \<noteq> None) (crackRecords b)))
       (deref (buildingArrays s) bref))"
  by (simp add: crackStats_closed widths_numericWidths length_numericWidths)

text \<open>
  The total is not the number of all crack records: the six example buildings have 8
  crack records, 2 of them without a width, and the total is 6.
\<close>

theorem totalCracks_counterexample:
  "totalCracks (fst (crackStats 0 ex_store)) \<noteq>
     sum_list (map (\<lambda>b. length (crackRecords b)) (deref (buildingArrays ex_store) 0))"
proof -
  have bs: "deref (buildingArrays ex_store) 0 = [ex_A, ex_B, ex_C, ex_D, ex_E, ex_F]"
    by (simp add: ex_store_def deref_def)
  have "totalCracks (fst (crackStats 0 ex_store)) =
      sum_list (map (\<lambda>b. length (widths b)) [ex_A, ex_B, ex_C, ex_D, ex_E, ex_F])"
    by (simp add: crackStats_closed bs)
  also have "\<dots> = 6"
    by code_simp
  finally have total: "totalCracks (fst (crackStats 0 ex_store)) = 6" .
  have "sum_list (map (\<lambda>b. length (crackRecords b)) [ex_A, ex_B, ex_C, ex_D, ex_E, ex_F]) = 8"
    by code_simp
  then show ?thesis
    by (simp add: total bs)
qed

subsection \<open>Severity filter\<close>

lemma buildingSeverity_max: "buildingSeverity b = getCrackSeverity (maxNumericWidth b)"
proof (cases "widths b")
  case Nil
  then show ?thesis
    by (simp add: buildingSeverity_def maxNumericWidth_def widths_numericWidths [symmetric])
next
  case (Cons w ws)
  then show ?thesis
    by (simp add: buildingSeverity_def maxNumericWidth_def widths_numericWidths [symmetric]
        Math_max_Max)
qed

lemma array_filter_deref:
  "deref (snd (array_filter p r h)) (fst (array_filter p r h)) = filter p (deref h r)"
  by (simp add: array_filter_def alloc_def deref_def nth_append)

lemma matchesSeverity_max:
  "matchesSeverity fs = (\<lambda>b. getCrackSeverity (maxNumericWidth b) \<in> set fs)"
  by (rule ext) (simp add: matchesSeverity_def buildingSeverity_max)

lemma severityFilter_deref:
  "deref (snd (severityFilter fs r h)) (fst (severityFilter fs r h)) =
     (if fs = [] then deref h r
      else filter (\<lambda>b. getCrackSeverity (maxNumericWidth b) \<in> set fs) (deref h r))"
  by (simp add: severityFilter_def array_filter_deref matchesSeverity_max)

lemma filterEffect_result:
  assumes "\<not> loading c" and "\<not> truthy (error c)"
  shows "deref (buildingArrays (snd (filterEffect c s))) (filteredBuildings (fst (filterEffect c s))) =
     deref (snd (severityFilter (activeFilters c)
               (fst (textFilter (searchTerm c) (buildings c) (buildingArrays s)))
               (snd (textFilter (searchTerm c) (buildings c) (buildingArrays s)))))
       (fst (severityFilter (activeFilters c)
               (fst (textFilter (searchTerm c) (buildings c) (buildingArrays s)))
               (snd (textFilter (searchTerm c) (buildings c) (buildingArrays s)))))"
  using assms by (simp add: filterEffect_def split_beta)

text \<open>
  C4. When the effect runs, the filtered list is obtained from the list that the text
  filter yields as follows: with no active filter it is that list; otherwise it holds,
  in order, exactly the buildings of that list whose maximum numeric width classifies
  to an active label. A building without a numeric width classifies as \<open>Observe\<close>.
\<close>

theorem severity_filter_exact:
  assumes "\<not> loading c" and "\<not> truthy (error c)"
  shows "deref (buildingArrays (snd (filterEffect c s))) (filteredBuildings (fst (filterEffect c s))) =
     (if activeFilters c = []
      then deref (snd (textFilter (searchTerm c) (buildings c) (buildingArrays s)))
             (fst (textFilter (searchTerm c) (buildings c) (buildingArrays s)))
      else filter (\<lambda>b. getCrackSeverity (maxNumericWidth b) \<in> set (activeFilters c))
             (deref (snd (textFilter (searchTerm c) (buildings c) (buildingArrays s)))
                (fst (textFilter (searchTerm c) (buildings c) (buildingArrays s))))) \<and>
   (numericWidths b = [] \<longrightarrow> getCrackSeverity (maxNumericWidth b) = Observe)"
  using assms by (simp add: filterEffect_result severityFilter_deref maxNumericWidth_def)

theorem severity_filter_exact_witness:
  "\<not> loading ex_component \<and> \<not> truthy (error ex_component) \<and>
   deref (buildingArrays (snd (filterEffect ex_component ex_store)))
     (filteredBuildings (fst (filterEffect ex_component ex_store))) = [ex_A]"
proof -
  have h1: "\<not> loading ex_component"
    by (simp add: ex_component_def)
  have h2: "\<not> truthy (error ex_component)"
    by (simp add: ex_component_def truthy_def)
  have rhs: "(if activeFilters ex_component = []
      then deref (snd (textFilter (searchTerm ex_component) (buildings ex_component)
                   (buildingArrays ex_store)))
             (fst (textFilter (searchTerm ex_component) (buildings ex_component)
                   (buildingArrays ex_store)))
      else filter (\<lambda>b. getCrackSeverity (maxNumericWidth b) \<in> set (activeFilters ex_component))
             (deref (snd (textFilter (searchTerm ex_component) (buildings ex_component)
                   (buildingArrays ex_store)))
                (fst (textFilter (searchTerm ex_component) (buildings ex_component)
                   (buildingArrays ex_store))))) = [ex_A]"
    by code_simp
  have "deref (buildingArrays (snd (filterEffect ex_component ex_store)))
     (filteredBuildings (fst (filterEffect ex_component ex_store))) = [ex_A]"
    using severity_filter_exact [OF h1 h2, of ex_store, THEN conjunct1] rhs by (rule trans)
  with h1 h2 show ?thesis by blast
qed

subsection \<open>Text filter\<close>

lemma dropWhile_all: "(\<forall>x \<in> set (dropWhile P xs). P x) \<longleftrightarrow> dropWhile P xs = []"
proof (cases "dropWhile P xs")
  case Nil
  show ?thesis unfolding Nil by simp
next
  case (Cons x ys)
  then have "\<not> P x"
    using hd_dropWhile [of P xs] by simp
  then show ?thesis unfolding Cons by simp
qed

lemma trim_empty_iff: "trim s = [] \<longleftrightarrow> list_all isWhiteSpace s"
proof -
  have "trim s = [] \<longleftrightarrow> dropWhile isWhiteSpace (rev (dropWhile isWhiteSpace s)) = []"
    by (simp add: trim_def)
  also have "\<dots> \<longleftrightarrow> (\<forall>x \<in> set (dropWhile isWhiteSpace s). isWhiteSpace x)"
    by (simp only: dropWhile_eq_Nil_conv set_rev)
  also have "\<dots> \<longleftrightarrow> dropWhile isWhiteSpace s = []"
    by (rule dropWhile_all)
  also have "\<dots> \<longleftrightarrow> list_all isWhiteSpace s"
    by (simp only: dropWhile_eq_Nil_conv list_all_iff)
  finally show ?thesis .
qed

lemma matchesTerm_contains:
  "matchesTerm (toLowerCase (trim t)) =
     (\<lambda>b. trim t = [] \<or> containsIgnoreCase (name b) (trim t) \<or>
          containsIgnoreCase (address b) (trim t))"
  by (rule ext)
     (simp add: matchesTerm_def containsIgnoreCase_def includes_str_iff sublist_def toLowerCase_def
      split: option.splits)

lemma textFilter_deref:
  "deref (snd (textFilter t r h)) (fst (textFilter t r h)) =
     filter (\<lambda>b. trim t = [] \<or> containsIgnoreCase (name b) (trim t) \<or>
                  containsIgnoreCase (address b) (trim t)) (deref h r)"
  by (simp add: textFilter_def array_filter_deref matchesTerm_contains)

text \<open>
  C5, for the trimmed term. The text filter keeps, in order, exactly the buildings
  whose name or address contains the trimmed search term without regard to case, and
  every building when the trimmed term is empty. A term of white space only keeps
  every building.
\<close>

theorem text_filter_exact:
  "deref (snd (textFilter t r h)) (fst (textFilter t r h)) =
     filter (\<lambda>b. trim t = [] \<or> containsIgnoreCase (name b) (trim t) \<or>
                  containsIgnoreCase (address b) (trim t)) (deref h r) \<and>
   (list_all isWhiteSpace t \<longrightarrow> deref (snd (textFilter t r h)) (fst (textFilter t r h)) = deref h r)"
  by (simp add: textFilter_deref trim_empty_iff)

theorem text_filter_exact_witness:
  "list_all isWhiteSpace ''  '' \<and>
   deref (snd (textFilter ''  '' 0 (buildingArrays ex_store)))
     (fst (textFilter ''  '' 0 (buildingArrays ex_store))) =
   [ex_A, ex_B, ex_C, ex_D, ex_E, ex_F]"
proof -
  have h: "list_all isWhiteSpace ''  ''"
    by code_simp
  have bs: "deref (buildingArrays ex_store) 0 = [ex_A, ex_B, ex_C, ex_D, ex_E, ex_F]"
    by (simp add: ex_store_def deref_def)
  have "deref (snd (textFilter ''  '' 0 (buildingArrays ex_store)))
      (fst (textFilter ''  '' 0 (buildingArrays ex_store))) =
    deref (buildingArrays ex_store) 0"
    using text_filter_exact [of "''  ''" 0 "buildingArrays ex_store", THEN conjunct2] h
    by (rule mp)
  with h bs show ?thesis by (simp only: simp_thms)
qed

text \<open>
  The term is trimmed before it is looked for: the search for \<open>sT\<close> typed with
  blanks around it keeps \<open>ex_A\<close> and \<open>ex_E\<close>, whose addresses end in \<open>St\<close>, although
  neither a name nor an address contains the term with its blanks.
\<close>

theorem text_filter_counterexample:
  "deref (snd (textFilter ''  sT '' 0 (buildingArrays ex_store)))
     (fst (textFilter ''  sT '' 0 (buildingArrays ex_store))) \<noteq>
   filter (\<lambda>b. containsIgnoreCase (name b) ''  sT '' \<or> containsIgnoreCase (address b) ''  sT '')
     (deref (buildingArrays ex_store) 0)"
proof -
  have "deref (snd (textFilter ''  sT '' 0 (buildingArrays ex_store)))
     (fst (textFilter ''  sT '' 0 (buildingArrays ex_store))) = [ex_A, ex_E]"
    by code_simp
  moreover have "filter (\<lambda>b. containsIgnoreCase (name b) ''  sT '' \<or>
       containsIgnoreCase (address b) ''  sT '') (deref (buildingArrays ex_store) 0) = []"
    by code_simp
  ultimately show ?thesis by simp
qed

subsection \<open>The pipeline on an empty term and no active filter\<close>

text \<open>
  C6. When the effect runs with the empty search term and no active filter, the
  filtered list is the building list: the same buildings in the same order.
\<close>

theorem filter_pipeline_identity:
  assumes "\<not> loading c" and "\<not> truthy (error c)"
    and "searchTerm c = []" and "activeFilters c = []"
  shows "deref (buildingArrays (snd (filterEffect c s))) (filteredBuildings (fst (filterEffect c s))) =
     deref (buildingArrays s) (buildings c)"
  using assms
  by (simp add: filterEffect_result severityFilter_deref textFilter_deref trim_def)


theorem filter_pipeline_identity_witness:
  "\<not> loading (ex_component\<lparr>searchTerm := [], activeFilters := []\<rparr>) \<and>
   \<not> truthy (error (ex_component\<lparr>searchTerm := [], activeFilters := []\<rparr>)) \<and>
   deref (buildingArrays (snd (filterEffect (ex_component\<lparr>searchTerm := [], activeFilters := []\<rparr>) ex_store)))
     (filteredBuildings (fst (filterEffect (ex_component\<lparr>searchTerm := [], activeFilters := []\<rparr>) ex_store))) =
   [ex_A, ex_B, ex_C, ex_D, ex_E, ex_F]"
proof -
  let ?c = "ex_component\<lparr>searchTerm := [], activeFilters := []\<rparr>"
  have h1: "\<not> loading ?c"
    by (simp add: ex_component_def)
  have h2: "\<not> truthy (error ?c)"
    by (simp add: ex_component_def truthy_def)
  have bs: "deref (buildingArrays ex_store) (buildings ?c) = [ex_A, ex_B, ex_C, ex_D, ex_E, ex_F]"
    by (simp add: ex_store_def ex_component_def deref_def)
  show ?thesis
    using h1 h2 bs filter_pipeline_identity [OF h1 h2, of ex_store] by simp
qed

subsection \<open>Metrics of the building card\<close>

lemma cardCracks_widths: "map widthMm (cardCracks b) = map widthMm (crackRecords b)"
proof (cases "waypoints b")
  case None
  then show ?thesis by (simp add: cardCracks_def crackRecords_def)
next
  case (Some wps)
  have eq: "(\<lambda>wp. map widthMm (case cracks wp of None \<Rightarrow> [] | Some cs \<Rightarrow>
        map (\<lambda>c. \<lparr>widthMm = widthMm c, crackType = crackType c, timestamp = timestamp c,
                   waypointLabel = label wp\<rparr>) cs)) =
      (\<lambda>wp. map widthMm (case cracks wp of None \<Rightarrow> [] | Some cs \<Rightarrow> cs))"
  proof (rule ext)
    fix wp
    show "map widthMm (case cracks wp of None \<Rightarrow> [] | Some cs \<Rightarrow>
        map (\<lambda>c. \<lparr>widthMm = widthMm c, crackType = crackType c, timestamp = timestamp c,
                   waypointLabel = label wp\<rparr>) cs) =
      map widthMm (case cracks wp of None \<Rightarrow> [] | Some cs \<Rightarrow> cs)"
      by (cases "cracks wp") (simp_all add: comp_def)
  qed
  show ?thesis
    using Some by (simp add: cardCracks_def crackRecords_def map_concat comp_def eq)
qed

lemma cardCracks_length: "length (cardCracks b) = length (crackRecords b)"
  using cardCracks_widths [of b, THEN arg_cong, of length] by simp

lemma cardCracks_empty: "cardCracks b = [] \<longleftrightarrow> crackRecords b = []"
  using cardCracks_length [of b] by auto

lemma map_filter_map: "List.map_filter id (map f xs) = List.map_filter f xs"
proof (induction xs)
  case Nil
  show ?case by (simp add: List.map_filter_simps)
next
  case (Cons x xs)
  then show ?case by (cases "f x") (simp_all add: List.map_filter_simps)
qed

lemma widths_cardCracks: "widths b = List.map_filter id (map widthMm (cardCracks b))"
  by (simp add: widths_numericWidths numericWidths_def cardCracks_widths map_filter_map)

lemma foldl_later:
  "foldl later c cs \<in> set (c # cs) \<and>
   (\<forall>x \<in> set (c # cs). timestamp x \<le> timestamp (foldl later c cs))"
proof (induction cs arbitrary: c)
  case Nil
  show ?case by simp
next
  case (Cons d cs)
  have step: "later c d \<in> {c, d} \<and> timestamp c \<le> timestamp (later c d) \<and>
      timestamp d \<le> timestamp (later c d)"
    by (simp add: later_def)
  from Cons.IH [of "later c d"] step show ?case
    by (auto intro: order_trans)
qed

lemma cardCracks_timestamps: "map timestamp (cardCracks b) = map timestamp (crackRecords b)"
proof (cases "waypoints b")
  case None
  then show ?thesis by (simp add: cardCracks_def crackRecords_def)
next
  case (Some wps)
  have eq: "(\<lambda>wp. map timestamp (case cracks wp of None \<Rightarrow> [] | Some cs \<Rightarrow>
        map (\<lambda>c. \<lparr>widthMm = widthMm c, crackType = crackType c, timestamp = timestamp c,
                   waypointLabel = label wp\<rparr>) cs)) =
      (\<lambda>wp. map timestamp (case cracks wp of None \<Rightarrow> [] | Some cs \<Rightarrow> cs))"
  proof (rule ext)
    fix wp
    show "map timestamp (case cracks wp of None \<Rightarrow> [] | Some cs \<Rightarrow>
        map (\<lambda>c. \<lparr>widthMm = widthMm c, crackType = crackType c, timestamp = timestamp c,
                   waypointLabel = label wp\<rparr>) cs) =
      map timestamp (case cracks wp of None \<Rightarrow> [] | Some cs \<Rightarrow> cs)"
      by (cases "cracks wp") (simp_all add: comp_def)
  qed
  show ?thesis
    using Some by (simp add: cardCracks_def crackRecords_def map_concat comp_def eq)
qed

lemma cardCracks_timestamp_set:
  "timestamp ` set (cardCracks b) = timestamp ` set (crackRecords b)"
  using cardCracks_timestamps [of b, THEN arg_cong, of set] by simp

text \<open>
  C7. The flattened crack list of the card is empty exactly when the building has no
  crack record. For such a building the card shows the crack count 0, the maximum
  width 0, the average width 0 and no date of the last check, and the severity of the
  building is \<open>Observe\<close>. For a building with crack records, the date of the last
  check is the timestamp of one of its crack records, and no crack record of the
  building, in any of its waypoints, has a later timestamp.
\<close>

theorem card_no_cracks_and_lastChecked:
  "(cardCracks b = [] \<longleftrightarrow> crackRecords b = []) \<and>
   (crackRecords b = [] \<longrightarrow>
      card_crackCount b = 0 \<and> card_maxWidth b = 0 \<and> card_avgWidth b = 0 \<and>
      lastChecked b = None \<and> buildingSeverity b = Observe) \<and>
   (crackRecords b \<noteq> [] \<longrightarrow>
      (\<exists>c \<in> set (crackRecords b). lastChecked b = Some (timestamp c) \<and>
         (\<forall>d \<in> set (crackRecords b). timestamp d \<le> timestamp c)))"
proof (cases "cardCracks b")
  case Nil
  then have r: "crackRecords b = []"
    by (simp add: cardCracks_empty [symmetric])
  have "widths b = []"
    using Nil by (simp add: widths_cardCracks List.map_filter_simps)
  then show ?thesis
    using Nil r
    by (simp add: card_crackCount_def card_maxWidth_def card_avgWidth_def lastChecked_def
        buildingSeverity_def)
next
  case (Cons c cs)
  then have r: "crackRecords b \<noteq> []"
    using cardCracks_empty [of b] by simp
  let ?m = "foldl later c cs"
  from foldl_later [of c cs] Cons
  have m_in: "?m \<in> set (cardCracks b)"
    and m_max: "\<forall>x \<in> set (cardCracks b). timestamp x \<le> timestamp ?m"
    by simp_all
  from m_in have "timestamp ?m \<in> timestamp ` set (crackRecords b)"
    unfolding cardCracks_timestamp_set [symmetric] by (rule imageI)
  then obtain c' where c': "c' \<in> set (crackRecords b)" "timestamp ?m = timestamp c'"
    by auto
  have le: "timestamp d \<le> timestamp c'" if "d \<in> set (crackRecords b)" for d
  proof -
    from that have "timestamp d \<in> timestamp ` set (cardCracks b)"
      unfolding cardCracks_timestamp_set by (rule imageI)
    then obtain x where "x \<in> set (cardCracks b)" "timestamp d = timestamp x"
      by auto
    with m_max c'(2) show ?thesis by auto
  qed
  have lc: "lastChecked b = Some (timestamp c')"
    using Cons c'(2) by (simp add: lastChecked_def)
  show ?thesis
    using Cons r c'(1) lc le by auto
qed

theorem card_no_cracks_and_lastChecked_witness:
  "crackRecords ex_B = [] \<and> cardCracks ex_B = [] \<and>
   card_crackCount ex_B = 0 \<and> card_maxWidth ex_B = 0 \<and> card_avgWidth ex_B = 0 \<and>
   lastChecked ex_B = None \<and> buildingSeverity ex_B = Observe \<and>
   crackRecords ex_A \<noteq> [] \<and> lastChecked ex_A = Some 3000 \<and>
   crackRecords ex_C \<noteq> [] \<and> lastChecked ex_C = Some 5000 \<and>
   (\<exists>c \<in> set (crackRecords ex_C). lastChecked ex_C = Some (timestamp c) \<and>
      (\<forall>d \<in> set (crackRecords ex_C). timestamp d \<le> timestamp c))"
proof -
  have e: "crackRecords ex_B = []"
    by code_simp
  have na: "crackRecords ex_A \<noteq> []"
    by code_simp
  have la: "lastChecked ex_A = Some 3000"
    by code_simp
  have n: "crackRecords ex_C \<noteq> []"
    by code_simp
  have l: "lastChecked ex_C = Some 5000"
    by code_simp
  from card_no_cracks_and_lastChecked [of ex_B] e
  have none: "cardCracks ex_B = [] \<and>
      card_crackCount ex_B = 0 \<and> card_maxWidth ex_B = 0 \<and> card_avgWidth ex_B = 0 \<and>
      lastChecked ex_B = None \<and> buildingSeverity ex_B = Observe"
    by blast
  from card_no_cracks_and_lastChecked [of ex_C] n
  have some: "\<exists>c \<in> set (crackRecords ex_C). lastChecked ex_C = Some (timestamp c) \<and>
      (\<forall>d \<in> set (crackRecords ex_C). timestamp d \<le> timestamp c)"
    by blast
  from e na la n l none some show ?thesis
    by blast
qed

subsection \<open>The card and the statistics on missing widths\<close>

lemma widthOr0_eq: "widthOr0 c = (case widthMm c of None \<Rightarrow> 0 | Some w \<Rightarrow> w)"
  by (simp add: widthOr0_def split: option.splits)

lemma widthOr0_map:
  "map widthOr0 (cardCracks b) =
     map (\<lambda>c. case widthMm c of None \<Rightarrow> 0 | Some w \<Rightarrow> w) (crackRecords b)"
proof -
  have "map widthOr0 (cardCracks b) =
      map (\<lambda>w. case w of None \<Rightarrow> 0 | Some w \<Rightarrow> w) (map widthMm (cardCracks b))"
    by (simp add: widthOr0_eq comp_def)
  also have "\<dots> = map (\<lambda>c. case widthMm c of None \<Rightarrow> 0 | Some w \<Rightarrow> w) (crackRecords b)"
    by (simp add: cardCracks_widths comp_def)
  finally show ?thesis .
qed

lemma card_maxWidth_records:
  "crackRecords b \<noteq> [] \<Longrightarrow>
   card_maxWidth b = Max (set (map (\<lambda>c. case widthMm c of None \<Rightarrow> 0 | Some w \<Rightarrow> w) (crackRecords b)))"
proof -
  assume ne: "crackRecords b \<noteq> []"
  then obtain w ws where ws: "map widthOr0 (cardCracks b) = w # ws"
    by (cases "map widthOr0 (cardCracks b)") (simp_all add: widthOr0_map)
  then have "card_maxWidth b = Max (set (map widthOr0 (cardCracks b)))"
    by (simp add: card_maxWidth_def Math_max_Max)
  then show ?thesis by (simp only: widthOr0_map)
qed

lemma foldl_widthOr0: "foldl (\<lambda>s c. s + widthOr0 c) a cs = a + sum_list (map widthOr0 cs)"
  by (induction cs arbitrary: a) (simp_all add: add.assoc)

lemma card_avgWidth_records:
  "crackRecords b \<noteq> [] \<Longrightarrow>
   card_avgWidth b =
     toFixed2 (sum_list (map (\<lambda>c. case widthMm c of None \<Rightarrow> 0 | Some w \<Rightarrow> w) (crackRecords b))
               / of_nat (length (crackRecords b)))"
  by (simp add: card_avgWidth_def card_crackCount_def cardCracks_length foldl_widthOr0
      widthOr0_map)

lemma visit_numeric:
  "visit r b (t, h) =
     (t + length (numericWidths b),
      if numericWidths b = [] then h
      else array_push \<lparr>id_s = id_b b, name_s = name b, crackCount = length (numericWidths b),
                        maxWidth = Max (set (numericWidths b)),
                        avgWidth = sum_list (numericWidths b) / of_nat (length (numericWidths b))\<rparr>
             r h)"
  by (simp add: visit_closed entry_def widths_numericWidths)

lemma count_split:
  "length (crackRecords b) =
     length (numericWidths b) + length (filter (\<lambda>c. widthMm c = None) (crackRecords b))"
proof -
  have "length (filter (\<lambda>c. widthMm c \<noteq> None) xs) + length (filter (\<lambda>c. widthMm c = None) xs) =
      length xs" for xs :: "crack list"
    by (induction xs) simp_all
  then show ?thesis by (simp add: length_numericWidths)
qed

lemma null_width_counts:
  assumes "\<exists>c \<in> set (crackRecords b). widthMm c = None"
  shows "length (numericWidths b) < card_crackCount b"
proof -
  from assms have "filter (\<lambda>c. widthMm c = None) (crackRecords b) \<noteq> []"
    by (simp add: filter_empty_conv)
  then have "0 < length (filter (\<lambda>c. widthMm c = None) (crackRecords b))"
    by simp
  then show ?thesis
    using count_split [of b] by (simp add: card_crackCount_def cardCracks_length)
qed

lemma card_max_with_null:
  assumes "\<exists>c \<in> set (crackRecords b). widthMm c = None" and "numericWidths b \<noteq> []"
  shows "card_maxWidth b = max 0 (Max (set (numericWidths b)))"
proof -
  let ?f = "\<lambda>c. case widthMm c of None \<Rightarrow> (0::rat) | Some w \<Rightarrow> w"
  have ne: "crackRecords b \<noteq> []"
    using assms(1) by auto
  have "insert 0 (set (numericWidths b)) = set (map ?f (crackRecords b))"
  proof (rule sym, intro set_eqI iffI)
    fix x assume "x \<in> set (map ?f (crackRecords b))"
    then obtain c where c: "c \<in> set (crackRecords b)" "x = ?f c" by auto
    show "x \<in> insert 0 (set (numericWidths b))"
    proof (cases "widthMm c")
      case None
      then show ?thesis using c by simp
    next
      case (Some w)
      then have "w \<in> set (numericWidths b)"
        using c(1) by (force simp: numericWidths_def List.map_filter_def)
      then show ?thesis using c Some by simp
    qed
  next
    fix x assume "x \<in> insert 0 (set (numericWidths b))"
    then consider "x = 0" | "x \<in> set (numericWidths b)" by auto
    then show "x \<in> set (map ?f (crackRecords b))"
    proof cases
      case 1
      from assms(1) obtain c where c: "c \<in> set (crackRecords b)" "widthMm c = None" by auto
      have "?f c \<in> ?f ` set (crackRecords b)"
        using c(1) by (rule imageI)
      moreover have "?f c = 0"
        using c(2) by simp
      ultimately show ?thesis using 1 by simp
    next
      case 2
      then obtain c where c: "c \<in> set (crackRecords b)" "widthMm c \<noteq> None" "x = the (widthMm c)"
        by (auto simp: numericWidths_def List.map_filter_def)
      then have "?f c = x" by auto
      then show ?thesis using c(1) by force
    qed
  qed
  then have "card_maxWidth b = Max (insert 0 (set (numericWidths b)))"
    using card_maxWidth_records [OF ne] by (rule ssubst)
  also have "\<dots> = max 0 (Max (set (numericWidths b)))"
    using assms(2) by (simp add: Max_insert)
  finally show ?thesis .
qed


text \<open>
  C8. The card counts every crack record and takes its maximum and its average over
  the widths with 0 in the place of a missing width. The severity filter and the
  statistics work on the numeric widths only: the severity is that of their maximum,
  and the entry pushed by the statistics holds their number, their maximum and their
  average. So a building with a crack record without a width shows a larger crack
  count on its card than in the statistics, and with a numeric width in addition its
  card shows the maximum of 0 and the largest numeric width. For \<open>ex_C\<close> the card
  shows 2 cracks of average width 0.20 where the statistics hold 1 crack of average
  width 0.4; for \<open>ex_G\<close> the card shows the maximum width 0 where the statistics
  hold \<open>- 0.1\<close>.
\<close>

theorem card_and_ranking_null_widths:
  "card_crackCount b = length (crackRecords b) \<and>
   (crackRecords b \<noteq> [] \<longrightarrow>
      card_maxWidth b =
        Max (set (map (\<lambda>c. case widthMm c of None \<Rightarrow> 0 | Some w \<Rightarrow> w) (crackRecords b))) \<and>
      card_avgWidth b =
        toFixed2 (sum_list (map (\<lambda>c. case widthMm c of None \<Rightarrow> 0 | Some w \<Rightarrow> w) (crackRecords b))
                  / of_nat (length (crackRecords b)))) \<and>
   widths b = numericWidths b \<and>
   buildingSeverity b = getCrackSeverity (maxNumericWidth b) \<and>
   visit r b (t, h) =
     (t + length (numericWidths b),
      if numericWidths b = [] then h
      else array_push \<lparr>id_s = id_b b, name_s = name b, crackCount = length (numericWidths b),
                        maxWidth = Max (set (numericWidths b)),
                        avgWidth = sum_list (numericWidths b) / of_nat (length (numericWidths b))\<rparr>
             r h) \<and>
   ((\<exists>c \<in> set (crackRecords b). widthMm c = None) \<longrightarrow>
      length (numericWidths b) < card_crackCount b) \<and>
   ((\<exists>c \<in> set (crackRecords b). widthMm c = None) \<and> numericWidths b \<noteq> [] \<longrightarrow>
      card_maxWidth b = max 0 (Max (set (numericWidths b)))) \<and>
   (card_crackCount ex_C = 2 \<and> length (numericWidths ex_C) = 1 \<and>
    card_avgWidth ex_C = 1 / 5 \<and>
    sum_list (numericWidths ex_C) / of_nat (length (numericWidths ex_C)) = 2 / 5) \<and>
   (card_maxWidth ex_G = 0 \<and> Max (set (numericWidths ex_G)) = - 1 / 10)"
proof -
  have count: "card_crackCount b = length (crackRecords b)"
    by (simp add: card_crackCount_def cardCracks_length)
  have card: "crackRecords b \<noteq> [] \<longrightarrow>
      card_maxWidth b =
        Max (set (map (\<lambda>c. case widthMm c of None \<Rightarrow> 0 | Some w \<Rightarrow> w) (crackRecords b))) \<and>
      card_avgWidth b =
        toFixed2 (sum_list (map (\<lambda>c. case widthMm c of None \<Rightarrow> 0 | Some w \<Rightarrow> w) (crackRecords b))
                  / of_nat (length (crackRecords b)))"
    using card_maxWidth_records [of b] card_avgWidth_records [of b] by blast
  have less: "(\<exists>c \<in> set (crackRecords b). widthMm c = None) \<longrightarrow>
      length (numericWidths b) < card_crackCount b"
    using null_width_counts [of b] by blast
  have mx: "(\<exists>c \<in> set (crackRecords b). widthMm c = None) \<and> numericWidths b \<noteq> [] \<longrightarrow>
      card_maxWidth b = max 0 (Max (set (numericWidths b)))"
    using card_max_with_null [of b] by blast
  have exC: "card_crackCount ex_C = 2 \<and> length (numericWidths ex_C) = 1 \<and>
    card_avgWidth ex_C = 1 / 5 \<and>
    sum_list (numericWidths ex_C) / of_nat (length (numericWidths ex_C)) = 2 / 5"
    by code_simp
  have exG: "card_maxWidth ex_G = 0 \<and> Max (set (numericWidths ex_G)) = - 1 / 10"
    by code_simp
  show ?thesis
    using count card widths_numericWidths [of b] buildingSeverity_max [of b]
      visit_numeric [of r b t h] less mx exC exG
    by blast
qed

theorem card_and_ranking_null_widths_witness:
  "crackRecords ex_C \<noteq> [] \<and> (\<exists>c \<in> set (crackRecords ex_C). widthMm c = None) \<and>
   numericWidths ex_C \<noteq> [] \<and>
   card_maxWidth ex_C =
     Max (set (map (\<lambda>c. case widthMm c of None \<Rightarrow> 0 | Some w \<Rightarrow> w) (crackRecords ex_C))) \<and>
   length (numericWidths ex_C) < card_crackCount ex_C \<and>
   card_maxWidth ex_C = max 0 (Max (set (numericWidths ex_C)))"
proof -
  have h1: "crackRecords ex_C \<noteq> []"
    by code_simp
  have h2: "\<exists>c \<in> set (crackRecords ex_C). widthMm c = None"
    by code_simp
  have h3: "numericWidths ex_C \<noteq> []"
    by code_simp
  note inst = card_and_ranking_null_widths [of ex_C 0 0 "[]"]
  from inst h1 have a: "card_maxWidth ex_C =
     Max (set (map (\<lambda>c. case widthMm c of None \<Rightarrow> 0 | Some w \<Rightarrow> w) (crackRecords ex_C)))"
    by blast
  from inst h2 have b: "length (numericWidths ex_C) < card_crackCount ex_C"
    by blast
  from inst h2 h3 have c: "card_maxWidth ex_C = max 0 (Max (set (numericWidths ex_C)))"
    by blast
  from h1 h2 h3 a b c show ?thesis
    by blast
qed

subsection \<open>Absent fields\<close>












subsection \<open>The building list is only read\<close>

lemma textFilter_closed:
  "textFilter t r h = (length h, h @ [filter (matchesTerm (toLowerCase (trim t))) (deref h r)])"
  by (simp add: textFilter_def array_filter_def alloc_def)

lemma severityFilter_closed:
  "severityFilter fs r h =
     (if fs = [] then (r, h) else (length h, h @ [filter (matchesSeverity fs) (deref h r)]))"
  by (simp add: severityFilter_def array_filter_def alloc_def)

lemma filterEffect_frame:
  "buildings (fst (filterEffect c s)) = buildings c \<and>
   statArrays (snd (filterEffect c s)) = statArrays s \<and>
   (\<exists>X. buildingArrays (snd (filterEffect c s)) = buildingArrays s @ X \<and>
        (deref (buildingArrays s) (buildings c) = [] \<longrightarrow> (\<forall>x \<in> set X. x = [])))"
  by (simp add: filterEffect_def textFilter_closed severityFilter_closed deref_append_new)

lemma deref_extended:
  assumes "deref h r = [] \<longrightarrow> (\<forall>x \<in> set X. x = [])"
  shows "deref (h @ X) r = deref h r"
proof (cases "r < length h")
  case True
  then show ?thesis by (rule deref_append_old)
next
  case False
  then have e: "deref h r = []"
    by (simp add: deref_def)
  with assms have "\<forall>x \<in> set X. x = []" by blast
  then have "deref (h @ X) r = []"
    using False by (auto simp: deref_def nth_append)
  then show ?thesis using e by simp
qed

text \<open>
  C10. The effect leaves the reference \<open>buildings\<close> of the component and every array
  that existed before it as they were, so the building list and its buildings are
  unchanged; it does not touch the arrays of the statistics. The statistics leave
  every array of buildings as it was and every array of entries that existed before.
  The three sorts work on copies: after them the array \<open>stats\<close> still holds the
  entries in the order of the building list. After the effect followed by the
  statistics the building list is still the one before.
\<close>

theorem building_list_unmodified:
  "buildings (fst (filterEffect c s)) = buildings c \<and>
   take (length (buildingArrays s)) (buildingArrays (snd (filterEffect c s))) = buildingArrays s \<and>
   deref (buildingArrays (snd (filterEffect c s))) (buildings c) =
     deref (buildingArrays s) (buildings c) \<and>
   statArrays (snd (filterEffect c s)) = statArrays s \<and>
   buildingArrays (snd (crackStats r s)) = buildingArrays s \<and>
   take (length (statArrays s)) (statArrays (snd (crackStats r s))) = statArrays s \<and>
   deref (statArrays (snd (crackStats r s))) (length (statArrays s)) =
     entries (deref (buildingArrays s) r) \<and>
   deref (buildingArrays (snd (crackStats (buildings (fst (filterEffect c s)))
                                 (snd (filterEffect c s)))))
     (buildings (fst (filterEffect c s))) =
     deref (buildingArrays s) (buildings c)"
proof -
  from filterEffect_frame [of c s] obtain X where
    b: "buildings (fst (filterEffect c s)) = buildings c" and
    st: "statArrays (snd (filterEffect c s)) = statArrays s" and
    X: "buildingArrays (snd (filterEffect c s)) = buildingArrays s @ X" and
    e: "deref (buildingArrays s) (buildings c) = [] \<longrightarrow> (\<forall>x \<in> set X. x = [])"
    by blast
  have tk: "take (length (buildingArrays s)) (buildingArrays (snd (filterEffect c s))) =
      buildingArrays s"
    by (simp add: X)
  have d: "deref (buildingArrays (snd (filterEffect c s))) (buildings c) =
      deref (buildingArrays s) (buildings c)"
    unfolding X using e by (rule deref_extended)
  have cb: "buildingArrays (snd (crackStats r' s')) = buildingArrays s'" for r' s'
    by (simp add: crackStats_closed)
  have cs: "take (length (statArrays s)) (statArrays (snd (crackStats r s))) = statArrays s"
    by (simp add: crackStats_closed)
  have stats: "deref (statArrays (snd (crackStats r s))) (length (statArrays s)) =
      entries (deref (buildingArrays s) r)"
    by (simp add: crackStats_closed deref_append_new)
  have both: "deref (buildingArrays (snd (crackStats (buildings (fst (filterEffect c s)))
                                 (snd (filterEffect c s)))))
     (buildings (fst (filterEffect c s))) =
     deref (buildingArrays s) (buildings c)"
    by (simp only: cb b d)
  show ?thesis
    using b tk d st cb [of r s] cs stats both by blast
qed

end
